theory Spec2Isabelle
  imports Complex_Main
begin

section \<open>MPC.cpp: horizon, layout of the decision vector, constants\<close>

text \<open>
  The C++ \<open>double\<close> (and CppAD's \<open>AD<double>\<close>) is modelled by \<^typ>\<open>real\<close> (the cost loops
  are given a second time with the rounding of \<open>double\<close> made explicit, where it matters);
  \<open>size_t\<close> indices by \<^typ>\<open>nat\<close> (with \<open>N = 15\<close> no index expression of the
  source wraps around). Vectors (\<open>Dvector\<close>, \<open>ADvector\<close>, \<open>Eigen::VectorXd\<close>,
  \<open>std::vector<double>\<close>) are lists.
\<close>

definition N :: nat where "N = 15"
definition dt :: real where "dt = 0.15"

definition x_start :: nat where "x_start = 0"
definition y_start :: nat where "y_start = x_start + N"
definition psi_start :: nat where "psi_start = y_start + N"
definition v_start :: nat where "v_start = psi_start + N"
definition cte_start :: nat where "cte_start = v_start + N"
definition epsi_start :: nat where "epsi_start = cte_start + N"
definition delta_start :: nat where "delta_start = epsi_start + N"
definition a_start :: nat where "a_start = delta_start + N - 1"

definition Lf :: real where "Lf = 2.67"

definition ref_cte :: real where "ref_cte = 0"
definition ref_epsi :: real where "ref_epsi = 0"
definition ref_v :: real where "ref_v = 80"

definition n_vars :: nat where "n_vars = N * 6 + (N - 1) * 2"
definition n_constraints :: nat where "n_constraints = N * 6"

lemmas start_defs =
  x_start_def y_start_def psi_start_def v_start_def cte_start_def epsi_start_def
  delta_start_def a_start_def

section \<open>FG_eval::operator()\<close>

definition w_cte :: real where "w_cte = 1000"
definition w_epsi :: real where "w_epsi = 1000"
definition w_dv :: real where "w_dv = 1"
definition w_delta :: real where "w_delta = 100"
definition w_a :: real where "w_a = 10"
definition w_ddelta :: real where "w_ddelta = 10"
definition w_da :: real where "w_da = 10"

lemmas weight_defs =
  w_cte_def w_epsi_def w_dv_def w_delta_def w_a_def w_ddelta_def w_da_def

text \<open>Body of the first cost loop (\<open>for t < N\<close>): three \<open>fg[0] += ...\<close>.\<close>

definition cost_state :: "real list \<Rightarrow> nat \<Rightarrow> real list \<Rightarrow> real list" where
  "cost_state vars t fg =
     (let fg = fg[0 := fg ! 0 + w_cte * (vars ! (cte_start + t)) ^ 2];
          fg = fg[0 := fg ! 0 + w_epsi * (vars ! (epsi_start + t)) ^ 2];
          fg = fg[0 := fg ! 0 + w_dv * (vars ! (v_start + t) - ref_v) ^ 2]
      in fg)"

text \<open>Body of the second cost loop (\<open>for t < N - 1\<close>).\<close>

definition cost_actuator :: "real list \<Rightarrow> nat \<Rightarrow> real list \<Rightarrow> real list" where
  "cost_actuator vars t fg =
     (let fg = fg[0 := fg ! 0 + w_delta * (vars ! (delta_start + t)) ^ 2];
          fg = fg[0 := fg ! 0 + w_a * (vars ! (a_start + t)) ^ 2]
      in fg)"

text \<open>Body of the third cost loop (\<open>for t < N - 2\<close>).\<close>

definition cost_gap :: "real list \<Rightarrow> nat \<Rightarrow> real list \<Rightarrow> real list" where
  "cost_gap vars t fg =
     (let fg = fg[0 := fg ! 0 +
                 w_ddelta * (vars ! (delta_start + t + 1) - vars ! (delta_start + t)) ^ 2];
          fg = fg[0 := fg ! 0 +
                 w_da * (vars ! (a_start + t + 1) - vars ! (a_start + t)) ^ 2]
      in fg)"

text \<open>Body of the constraint loop (\<open>for t < N - 2\<close>, source lines 97--139).\<close>

definition constraint_step :: "real list \<Rightarrow> real list \<Rightarrow> nat \<Rightarrow> real list \<Rightarrow> real list" where
  "constraint_step coeffs vars t fg =
     (let x0 = vars ! (x_start + t);
          y0 = vars ! (y_start + t);
          psi0 = vars ! (psi_start + t);
          v0 = vars ! (v_start + t);
          cte0 = vars ! (cte_start + t);
          epsi0 = vars ! (epsi_start + t);
          x1 = vars ! (x_start + t + 1);
          y1 = vars ! (y_start + t + 1);
          psi1 = vars ! (psi_start + t + 1);
          v1 = vars ! (v_start + t + 1);
          cte1 = vars ! (cte_start + t + 1);
          epsi1 = vars ! (epsi_start + t + 1);
          delta0 = vars ! (delta_start + t);
          a0 = vars ! (a_start + t);
          f0 = coeffs ! 0 + coeffs ! 1 * x0 + coeffs ! 2 * x0 * x0 + coeffs ! 3 * x0 * x0 * x0;
          psides0 = arctan (1 * coeffs ! 1 + 2 * coeffs ! 2 * x0 + 3 * coeffs ! 3 * x0 * x0);
          fg = fg[x_start + t + 2 := x1 - (x0 + v0 * cos psi0 * dt)];
          fg = fg[y_start + t + 2 := y1 - (y0 + v0 * sin psi0 * dt)];
          fg = fg[psi_start + t + 2 := psi1 - (psi0 + v0 * delta0 / Lf * dt)];
          fg = fg[v_start + t + 2 := v1 - (v0 + a0 * dt)];
          fg = fg[cte_start + t + 2 := cte1 - ((f0 - y0) + (v0 * sin epsi0 * dt))];
          fg = fg[epsi_start + t + 2 := epsi1 - ((psi0 - psides0) + v0 * delta0 / Lf * dt)]
      in fg)"

text \<open>
  \<open>fg\<close> is passed by reference and overwritten in place: the model takes the caller's
  vector and returns the updated one. Entry 0 is the cost, entry \<open>1 + i\<close> is constraint \<open>i\<close>.
\<close>

definition FG_eval :: "real list \<Rightarrow> real list \<Rightarrow> real list \<Rightarrow> real list" where
  "FG_eval coeffs fg vars =
     (let fg = fg[0 := 0];
          fg = fold (cost_state vars) [0..<N] fg;
          fg = fold (cost_actuator vars) [0..<N - 1] fg;
          fg = fold (cost_gap vars) [0..<N - 2] fg;
          fg = fg[x_start + 1 := vars ! x_start];
          fg = fg[y_start + 1 := vars ! y_start];
          fg = fg[psi_start + 1 := vars ! psi_start];
          fg = fg[v_start + 1 := vars ! v_start];
          fg = fg[cte_start + 1 := vars ! cte_start];
          fg = fg[epsi_start + 1 := vars ! epsi_start];
          fg = fold (constraint_step coeffs vars) [0..<N - 2] fg
      in fg)"

text \<open>What one iteration of each cost loop adds to entry 0.\<close>

definition state_term :: "real list \<Rightarrow> nat \<Rightarrow> real" where
  "state_term vars t =
     w_cte * (vars ! (cte_start + t)) ^ 2 + w_epsi * (vars ! (epsi_start + t)) ^ 2
     + w_dv * (vars ! (v_start + t) - ref_v) ^ 2"

definition actuator_term :: "real list \<Rightarrow> nat \<Rightarrow> real" where
  "actuator_term vars t =
     w_delta * (vars ! (delta_start + t)) ^ 2 + w_a * (vars ! (a_start + t)) ^ 2"

definition gap_term :: "real list \<Rightarrow> nat \<Rightarrow> real" where
  "gap_term vars t =
     w_ddelta * (vars ! (delta_start + t + 1) - vars ! (delta_start + t)) ^ 2
     + w_da * (vars ! (a_start + t + 1) - vars ! (a_start + t)) ^ 2"


section \<open>MPC::Solve\<close>

text \<open>
  \<open>CppAD::ipopt::solve_result<Dvector>\<close> and \<open>CppAD::ipopt::solve\<close> belong to the CppAD
  and Ipopt libraries. The result is a record of the fields \<open>MPC::Solve\<close> reads; the solver
  is a parameter of the model, called with the arguments of the source.
\<close>

datatype status_type =
  not_defined | success | maxiter_exceeded | stop_at_tiny_step | stop_at_acceptable_point
  | local_infeasibility | user_requested_stop | feasible_point_found | diverging_iterates
  | restoration_failure | error_in_step_computation | invalid_number_detected
  | too_few_degrees_of_freedom | internal_error | unknown

record solve_result =
  sol_status :: status_type
  sol_x :: "real list"
  sol_obj_value :: real

type_synonym ipopt_solve =
  "string \<Rightarrow> real list \<Rightarrow> real list \<Rightarrow> real list \<Rightarrow> real list \<Rightarrow> real list
     \<Rightarrow> (real list \<Rightarrow> real list \<Rightarrow> real list) \<Rightarrow> solve_result"

text \<open>
  \<open>Dvector v(n)\<close> allocates \<open>n\<close> entries of unspecified content; the source overwrites
  every entry before the vector is used, so the model starts from zeros.
\<close>

definition Dvector :: "nat \<Rightarrow> real list" where
  "Dvector n = replicate n 0"

text \<open>\<open>for (i = lo; i < hi; i++) xs[i] = c;\<close>\<close>

definition fill :: "nat \<Rightarrow> nat \<Rightarrow> real \<Rightarrow> real list \<Rightarrow> real list" where
  "fill lo hi c xs = fold (\<lambda>i xs. xs[i := c]) [lo..<hi] xs"

definition vars_init :: "real list \<Rightarrow> real list" where
  "vars_init state =
     (let vars = Dvector n_vars;
          vars = fill 0 n_vars 0 vars;
          vars = vars[x_start := state ! 0];
          vars = vars[y_start := state ! 1];
          vars = vars[psi_start := state ! 2];
          vars = vars[v_start := state ! 3];
          vars = vars[cte_start := state ! 4];
          vars = vars[epsi_start := state ! 5]
      in vars)"

text \<open>The source's \<open>1.0e19\<close> is \<open>10 ^ 19\<close>.\<close>

definition vars_lowerbound :: "real list" where
  "vars_lowerbound =
     (let vars_lowerbound = Dvector n_vars;
          vars_lowerbound = fill 0 delta_start (- (10 ^ 19)) vars_lowerbound;
          vars_lowerbound = fill delta_start a_start (- 0.436332) vars_lowerbound;
          vars_lowerbound = fill a_start n_vars (- 1) vars_lowerbound
      in vars_lowerbound)"

definition vars_upperbound :: "real list" where
  "vars_upperbound =
     (let vars_upperbound = Dvector n_vars;
          vars_upperbound = fill 0 delta_start (10 ^ 19) vars_upperbound;
          vars_upperbound = fill delta_start a_start 0.436332 vars_upperbound;
          vars_upperbound = fill a_start n_vars 1 vars_upperbound
      in vars_upperbound)"

definition constraints_lowerbound :: "real list \<Rightarrow> real list" where
  "constraints_lowerbound state =
     (let lb = Dvector n_constraints;
          lb = fill 0 n_constraints 0 lb;
          lb = lb[x_start := state ! 0];
          lb = lb[y_start := state ! 1];
          lb = lb[psi_start := state ! 2];
          lb = lb[v_start := state ! 3];
          lb = lb[cte_start := state ! 4];
          lb = lb[epsi_start := state ! 5]
      in lb)"

definition constraints_upperbound :: "real list \<Rightarrow> real list" where
  "constraints_upperbound state =
     (let ub = Dvector n_constraints;
          ub = fill 0 n_constraints 0 ub;
          ub = ub[x_start := state ! 0];
          ub = ub[y_start := state ! 1];
          ub = ub[psi_start := state ! 2];
          ub = ub[v_start := state ! 3];
          ub = ub[cte_start := state ! 4];
          ub = ub[epsi_start := state ! 5]
      in ub)"

definition options :: string where
  "options =
     ''Integer print_level  0'' @ [CHR 0x0A] @
     ''Sparse  true        forward'' @ [CHR 0x0A] @
     ''Sparse  true        reverse'' @ [CHR 0x0A] @
     ''Numeric max_cpu_time          0.5'' @ [CHR 0x0A]"

text \<open>The call of the solver in \<open>MPC::Solve\<close>, with the seven inputs of the source.\<close>

definition solution_of :: "ipopt_solve \<Rightarrow> real list \<Rightarrow> real list \<Rightarrow> solve_result" where
  "solution_of solver state coeffs =
     solver options (vars_init state) vars_lowerbound vars_upperbound
       (constraints_lowerbound state) (constraints_upperbound state) (FG_eval coeffs)"

text \<open>
  The flag \<open>ok\<close> and the cost are computed as in the source; the cost is printed, the flag
  is read by nothing. The returned vector is built by \<open>push_back\<close>.
\<close>

definition Solve :: "ipopt_solve \<Rightarrow> real list \<Rightarrow> real list \<Rightarrow> real list" where
  "Solve solver state coeffs =
     (let ok = True;
          solution = solution_of solver state coeffs;
          ok = (ok \<and> sol_status solution = success);
          cost = sol_obj_value solution;
          result = [];
          result = result @ [sol_x solution ! delta_start];
          result = result @ [sol_x solution ! a_start];
          result = fold (\<lambda>i result.
                     (result @ [sol_x solution ! (x_start + i)]) @ [sol_x solution ! (y_start + i)])
                     [0..<N - 1] result
      in result)"

section \<open>main.cpp: polyeval, polyfit\<close>

datatype error = AssertionFailure | OutOfRange

definition polyeval :: "real list \<Rightarrow> real \<Rightarrow> real" where
  "polyeval coeffs x0 =
     fold (\<lambda>i result. result + coeffs ! i * x0 ^ i) [0..<length coeffs] 0"

text \<open>
  \<open>Eigen::MatrixXd\<close> is a list of rows. \<open>A.householderQr().solve(yvals)\<close> is Eigen's code:
  a parameter of the model.
\<close>

type_synonym matrix = "real list list"
type_synonym qr_solve = "matrix \<Rightarrow> real list \<Rightarrow> real list"

definition MatrixXd :: "nat \<Rightarrow> nat \<Rightarrow> matrix" where
  "MatrixXd rows cols = replicate rows (replicate cols 0)"

definition mat_get :: "matrix \<Rightarrow> nat \<Rightarrow> nat \<Rightarrow> real" where
  "mat_get A j i = A ! j ! i"

definition mat_set :: "matrix \<Rightarrow> nat \<Rightarrow> nat \<Rightarrow> real \<Rightarrow> matrix" where
  "mat_set A j i c = A[j := (A ! j)[i := c]]"

text \<open>The matrix \<open>A\<close> that \<open>polyfit\<close> fills with its two loops.\<close>

definition design_matrix :: "real list \<Rightarrow> int \<Rightarrow> matrix" where
  "design_matrix xvals order =
     (let A = MatrixXd (length xvals) (nat (order + 1));
          A = fold (\<lambda>i A. mat_set A i 0 1) [0..<length xvals] A;
          A = fold (\<lambda>j A.
                fold (\<lambda>i A. mat_set A j (i + 1) (mat_get A j i * xvals ! j)) [0..<nat order] A)
                [0..<length xvals] A
      in A)"

text \<open>The two \<open>assert\<close>s abort the process; the model returns \<open>AssertionFailure\<close>.\<close>

definition polyfit :: "qr_solve \<Rightarrow> real list \<Rightarrow> real list \<Rightarrow> int \<Rightarrow> error + real list" where
  "polyfit householderQr_solve xvals yvals order =
     (if length xvals \<noteq> length yvals then Inl AssertionFailure
      else if \<not> (order \<ge> 1 \<and> order \<le> int (length xvals) - 1) then Inl AssertionFailure
      else Inr (householderQr_solve (design_matrix xvals order) yvals))"

section \<open>main.cpp: the telemetry branch of the message handler\<close>

record telemetry =
  ptsx :: "real list"
  ptsy :: "real list"
  tel_x :: real
  tel_y :: real
  tel_psi :: real
  tel_speed :: real
  tel_steering_angle :: real
  tel_throttle :: real

record steer_msg =
  steering_angle :: real
  throttle :: real
  next_x :: "real list"
  next_y :: "real list"
  mpc_x :: "real list"
  mpc_y :: "real list"

text \<open>
  The loop that moves the waypoints into the car's frame runs over \<open>ptsx\<close> and reads
  \<open>ptsy[i]\<close>, writes \<open>yvals[i]\<close>: out of range when \<open>ptsy\<close> is the shorter one.
\<close>

fun waypoints_loop ::
  "real list \<Rightarrow> real list \<Rightarrow> real \<Rightarrow> real \<Rightarrow> real \<Rightarrow> nat list \<Rightarrow> real list \<times> real list
     \<Rightarrow> error + real list \<times> real list" where
  "waypoints_loop px_s py_s px py psi [] (xvals, yvals) = Inr (xvals, yvals)"
| "waypoints_loop px_s py_s px py psi (i # rest) (xvals, yvals) =
     (if length py_s \<le> i then Inl OutOfRange
      else
        let x_trans = px_s ! i - px;
            y_trans = py_s ! i - py
        in waypoints_loop px_s py_s px py psi rest
             (xvals[i := x_trans * cos (- psi) - y_trans * sin (- psi)],
              yvals[i := x_trans * sin (- psi) + y_trans * cos (- psi)]))"

text \<open>Source lines 117--153: errors at the origin, latency adjustment, the state vector.\<close>

definition latency_state :: "real list \<Rightarrow> real \<Rightarrow> real \<Rightarrow> real \<Rightarrow> real list" where
  "latency_state coeffs v delta a =
     (let cte = polyeval coeffs 0;
          epsi = arctan (coeffs ! 1);
          dt_lat = (0.1 :: real);
          x0 = (0 :: real);
          y0 = (0 :: real);
          psi0 = (0 :: real);
          v0 = v;
          Lf_local = (2.67 :: real)
      in if dt_lat > 0 then
           [x0 + v * cos delta * dt_lat,
            y0 + v * sin delta * dt_lat,
            psi0 + v * delta / Lf_local * dt_lat,
            v0 + a * dt_lat,
            cte + v * sin delta * dt_lat,
            epsi + v * delta / Lf_local * dt_lat]
         else [x0, y0, psi0, v0, cte, epsi])"

definition reference_line :: "real list \<Rightarrow> real list \<times> real list" where
  "reference_line coeffs =
     (let npoints = (10 :: nat); dn = (5 :: real)
      in fold (\<lambda>i (next_x_vals, next_y_vals).
                (next_x_vals @ [dn * real i], next_y_vals @ [polyeval coeffs (dn * real i)]))
           [1..<npoints + 2] ([], []))"

definition predicted_line :: "real list \<Rightarrow> real list \<times> real list" where
  "predicted_line vars =
     fold (\<lambda>i (mpc_x_vals, mpc_y_vals).
            if i mod 2 = 0 then (mpc_x_vals @ [vars ! i], mpc_y_vals)
            else (mpc_x_vals, mpc_y_vals @ [vars ! i]))
       [2..<length vars] ([], [])"

text \<open>
  Source lines 88--153 of the handler: read the telemetry, flip the sign of the steering
  angle, move the waypoints into the car's frame, fit the cubic, and build the state that
  is handed to \<open>MPC::Solve\<close> together with the coefficients. \<open>Eigen::VectorXd xvals(n)\<close>
  allocates \<open>n\<close> entries of unspecified content (zeros here); the loop writes every entry of
  \<open>xvals\<close>, and \<open>polyfit\<close> refuses a \<open>yvals\<close> of another size.
\<close>

definition initial_state :: "qr_solve \<Rightarrow> telemetry \<Rightarrow> error + real list \<times> real list" where
  "initial_state householderQr_solve j =
     (let px = tel_x j;
          py = tel_y j;
          psi = tel_psi j;
          v = tel_speed j;
          delta = tel_steering_angle j;
          a = tel_throttle j;
          delta = delta * (- 1);
          xvals = replicate (length (ptsx j)) 0;
          yvals = replicate (length (ptsy j)) 0
      in case waypoints_loop (ptsx j) (ptsy j) px py psi [0..<length (ptsx j)] (xvals, yvals) of
           Inl e \<Rightarrow> Inl e
         | Inr (xvals, yvals) \<Rightarrow>
             (case polyfit householderQr_solve xvals yvals 3 of
                Inl e \<Rightarrow> Inl e
              | Inr coeffs \<Rightarrow> Inr (latency_state coeffs v delta a, coeffs)))"

text \<open>Source lines 155--191: solve, then fill the reply.\<close>

definition onMessage_telemetry ::
  "qr_solve \<Rightarrow> ipopt_solve \<Rightarrow> telemetry \<Rightarrow> error + steer_msg" where
  "onMessage_telemetry householderQr_solve solver j =
     (case initial_state householderQr_solve j of
        Inl e \<Rightarrow> Inl e
      | Inr (state, coeffs) \<Rightarrow>
          let vars = Solve solver state coeffs;
              steer_value = - (vars ! 0);
              throttle_value = vars ! 1;
              (next_x_vals, next_y_vals) = reference_line coeffs;
              (mpc_x_vals, mpc_y_vals) = predicted_line vars
          in Inr \<lparr>steering_angle = steer_value, throttle = throttle_value,
                  next_x = next_x_vals, next_y = next_y_vals,
                  mpc_x = mpc_x_vals, mpc_y = mpc_y_vals\<rparr>)"

section \<open>The cost loops with the rounding made explicit\<close>

text \<open>
  Lines 57--86 of \<open>MPC.cpp\<close> once more, on the value of \<open>fg[0]\<close> alone and with every sum,
  difference and product of the source rounded by \<open>rd\<close>. With \<open>rd\<close> the identity this is the
  exact arithmetic of \<open>FG_eval\<close>; with \<open>round_double\<close> it is the arithmetic of the C++
  \<open>double\<close> on finite values: IEEE 754 binary64, round to nearest, ties to even, 53
  significant bits, exponents from \<open>-1022\<close>, subnormal numbers in steps of \<open>2 powr (- 1074)\<close>.
  Overflow is left out: a result beyond the largest double is rounded as if the exponents
  went on, which changes neither its sign nor whether it is zero. \<open>CppAD::pow(x, 2)\<close> is
  library code, taken as the rounded product \<open>x * x\<close>.
\<close>

definition round_even :: "real \<Rightarrow> int" where
  "round_even r =
     (let f = \<lfloor>r\<rfloor>; d = r - of_int f
      in if d < 1 / 2 then f else if 1 / 2 < d then f + 1 else if even f then f else f + 1)"

definition round_double :: "real \<Rightarrow> real" where
  "round_double r =
     (if r = 0 then 0
      else let e = max \<lfloor>log 2 \<bar>r\<bar>\<rfloor> (- 1022);
               q = 2 powr (of_int e - 52)
           in of_int (round_even (r / q)) * q)"






section \<open>Notions used to state the properties\<close>

text \<open>
  The kinematic relations of the dynamics constraints (the right-hand sides that
  \<open>constraint_step\<close> subtracts for \<open>x\<close>, \<open>y\<close>, \<open>psi\<close> and \<open>v\<close>), as a step of length \<open>h\<close>.
\<close>

definition kinematic_update ::
  "real \<Rightarrow> real \<Rightarrow> real \<Rightarrow> real \<Rightarrow> real \<Rightarrow> real \<Rightarrow> real \<Rightarrow> real list" where
  "kinematic_update x0 y0 psi0 v0 delta0 a0 h =
     [x0 + v0 * cos psi0 * h, y0 + v0 * sin psi0 * h, psi0 + v0 * delta0 / Lf * h, v0 + a0 * h]"

text \<open>A solver that returns a fixed result, and a solver whose status is overwritten.\<close>

definition const_solver :: "solve_result \<Rightarrow> ipopt_solve" where
  "const_solver r opts xi xl xu gl gu fg_eval = r"

definition with_status :: "status_type \<Rightarrow> ipopt_solve \<Rightarrow> ipopt_solve" where
  "with_status st solver opts xi xl xu gl gu fg_eval =
     (solver opts xi xl xu gl gu fg_eval)\<lparr>sol_status := st\<rparr>"

definition const_qr :: "real list \<Rightarrow> qr_solve" where
  "const_qr c A b = c"

text \<open>
  What Ipopt promises of the point it returns, in terms of the arguments it is called with
  (an interior-point method keeps every iterate between the variable bounds \<open>xl\<close>, \<open>xu\<close> it
  was given): when the bound vectors have the size of the starting point \<open>xi\<close> and \<open>xl\<close> is
  nowhere above \<open>xu\<close>, the returned vector has that size and lies between \<open>xl\<close> and \<open>xu\<close>.
\<close>

definition ipopt_contract :: "ipopt_solve \<Rightarrow> bool" where
  "ipopt_contract solver \<longleftrightarrow>
     (\<forall>opts xi xl xu gl gu fg_eval.
        length xl = length xi \<and> length xu = length xi \<and> (\<forall>i<length xi. xl ! i \<le> xu ! i) \<longrightarrow>
        length (sol_x (solver opts xi xl xu gl gu fg_eval)) = length xi \<and>
        (\<forall>i<length xi. xl ! i \<le> sol_x (solver opts xi xl xu gl gu fg_eval) ! i \<and>
                        sol_x (solver opts xi xl xu gl gu fg_eval) ! i \<le> xu ! i))"

text \<open>A solver that keeps its promise: it returns the starting point, clipped to the bounds.\<close>

definition clip_solver :: ipopt_solve where
  "clip_solver opts xi xl xu gl gu fg_eval =
     \<lparr>sol_status = success,
      sol_x = map (\<lambda>i. max (xl ! i) (min (xu ! i) (xi ! i))) [0..<length xi],
      sol_obj_value = 0\<rparr>"

text \<open>
  What Eigen promises of \<open>A.householderQr().solve(b)\<close>: a vector with one entry per
  column of \<open>A\<close> that minimises the sum of the squared residuals of \<open>A c = b\<close>.
\<close>

definition residual :: "matrix \<Rightarrow> real list \<Rightarrow> real list \<Rightarrow> real" where
  "residual A b c = (\<Sum>j<length A. ((\<Sum>i<length c. A ! j ! i * c ! i) - b ! j) ^ 2)"

definition least_squares :: "nat \<Rightarrow> matrix \<Rightarrow> real list \<Rightarrow> real list \<Rightarrow> bool" where
  "least_squares n A b c \<longleftrightarrow>
     length c = n \<and> (\<forall>c'. length c' = n \<longrightarrow> residual A b c \<le> residual A b c')"

text \<open>A matrix of \<open>n\<close> rows of \<open>m\<close> entries.\<close>

definition shape :: "matrix \<Rightarrow> nat \<Rightarrow> nat \<Rightarrow> bool" where
  "shape A n m \<longleftrightarrow> length A = n \<and> (\<forall>j<n. length (A ! j) = m)"

text \<open>The positions \<open>(x\<^sub>t, y\<^sub>t)\<close> of a decision vector for \<open>t\<close> from \<open>t0\<close> up to \<open>N - 1\<close>.\<close>

definition positions_from :: "nat \<Rightarrow> real list \<Rightarrow> (real \<times> real) list" where
  "positions_from t0 xs = map (\<lambda>t. (xs ! (x_start + t), xs ! (y_start + t))) [t0..<N]"

section \<open>Concrete inputs\<close>

definition ramp_result :: solve_result where
  "ramp_result = \<lparr>sol_status = success, sol_x = map real [0..<n_vars], sol_obj_value = 0\<rparr>"

definition failed_result :: solve_result where
  "failed_result =
     \<lparr>sol_status = maxiter_exceeded,
      sol_x = (replicate n_vars 0)[delta_start := 0.3, a_start := 1],
      sol_obj_value = 0\<rparr>"

definition zero_result :: solve_result where
  "zero_result = \<lparr>sol_status = success, sol_x = replicate n_vars 0, sol_obj_value = 0\<rparr>"

definition straight_telemetry :: telemetry where
  "straight_telemetry =
     \<lparr>ptsx = [0, 1, 2, 3], ptsy = [0, 0, 0, 0], tel_x = 0, tel_y = 0, tel_psi = 0,
      tel_speed = 10, tel_steering_angle = 0, tel_throttle = 0\<rparr>"

definition left_telemetry :: telemetry where
  "left_telemetry =
     \<lparr>ptsx = [0, 1, 2, 3], ptsy = [0, 0, 0, 0], tel_x = 0, tel_y = 0, tel_psi = 0,
      tel_speed = 10, tel_steering_angle = 0.1, tel_throttle = 0\<rparr>"

definition short_telemetry :: telemetry where
  "short_telemetry =
     \<lparr>ptsx = [0, 1, 2], ptsy = [0, 0, 0], tel_x = 0, tel_y = 0, tel_psi = 0,
      tel_speed = 10, tel_steering_angle = 0, tel_throttle = 0\<rparr>"



section \<open>The cost entry\<close>

lemma fold_add0:
  assumes "\<And>t fg. fg \<noteq> [] \<Longrightarrow> step t fg = fg[0 := fg ! 0 + f t]"
  shows "fg \<noteq> [] \<Longrightarrow> fold step ts fg = fg[0 := fg ! 0 + sum_list (map f ts)]"
proof (induction ts arbitrary: fg)
  case Nil
  then show ?case by simp
next
  case (Cons t ts)
  have ne: "fg[0 := fg ! 0 + f t] \<noteq> []" using Cons.prems by simp
  show ?case
    using Cons.prems Cons.IH [OF ne]
    by (simp add: assms [OF Cons.prems] add.assoc)
qed

lemma cost_state_add:
  "fg \<noteq> [] \<Longrightarrow> cost_state vars t fg =
     fg[0 := fg ! 0 + (w_cte * (vars ! (cte_start + t)) ^ 2
                      + w_epsi * (vars ! (epsi_start + t)) ^ 2
                      + w_dv * (vars ! (v_start + t) - ref_v) ^ 2)]"
  by (simp add: cost_state_def Let_def add.assoc)

lemma cost_actuator_add:
  "fg \<noteq> [] \<Longrightarrow> cost_actuator vars t fg =
     fg[0 := fg ! 0 + (w_delta * (vars ! (delta_start + t)) ^ 2
                      + w_a * (vars ! (a_start + t)) ^ 2)]"
  by (simp add: cost_actuator_def Let_def add.assoc)

lemma cost_gap_add:
  "fg \<noteq> [] \<Longrightarrow> cost_gap vars t fg =
     fg[0 := fg ! 0 + (w_ddelta * (vars ! (delta_start + t + 1) - vars ! (delta_start + t)) ^ 2
                      + w_da * (vars ! (a_start + t + 1) - vars ! (a_start + t)) ^ 2)]"
  by (simp add: cost_gap_def Let_def add.assoc)

lemma length_cost_state [simp]: "length (cost_state vars t fg) = length fg"
  by (simp add: cost_state_def Let_def)

lemma length_cost_actuator [simp]: "length (cost_actuator vars t fg) = length fg"
  by (simp add: cost_actuator_def Let_def)

lemma length_cost_gap [simp]: "length (cost_gap vars t fg) = length fg"
  by (simp add: cost_gap_def Let_def)

lemma length_constraint_step [simp]: "length (constraint_step coeffs vars t fg) = length fg"
  by (simp add: constraint_step_def Let_def)

lemma length_fold_keep:
  assumes "\<And>t fg. length (step t fg) = length fg"
  shows "length (fold step ts fg) = length fg"
  by (induction ts arbitrary: fg) (simp_all add: assms)

lemma constraint_step_other:
  assumes "i \<noteq> x_start + t + 2" "i \<noteq> y_start + t + 2" "i \<noteq> psi_start + t + 2"
    "i \<noteq> v_start + t + 2" "i \<noteq> cte_start + t + 2" "i \<noteq> epsi_start + t + 2"
  shows "constraint_step coeffs vars t fg ! i = fg ! i"
  using assms by (simp add: constraint_step_def Let_def)

lemma fold_constraint_other:
  assumes "\<And>t. t \<in> set ts \<Longrightarrow>
      i \<noteq> x_start + t + 2 \<and> i \<noteq> y_start + t + 2 \<and> i \<noteq> psi_start + t + 2 \<and>
      i \<noteq> v_start + t + 2 \<and> i \<noteq> cte_start + t + 2 \<and> i \<noteq> epsi_start + t + 2"
  shows "fold (constraint_step coeffs vars) ts fg ! i = fg ! i"
  using assms
proof (induction ts arbitrary: fg)
  case Nil
  then show ?case by simp
next
  case (Cons t ts)
  have "fold (constraint_step coeffs vars) ts (constraint_step coeffs vars t fg) ! i
      = constraint_step coeffs vars t fg ! i"
    by (rule Cons.IH, rule Cons.prems) simp
  also have "\<dots> = fg ! i"
    using Cons.prems [of t] by (simp add: constraint_step_other)
  finally show ?case by simp
qed

lemma cost_loops:
  assumes "fg \<noteq> []"
  shows "fold (cost_gap vars) [0..<N - 2]
           (fold (cost_actuator vars) [0..<N - 1]
             (fold (cost_state vars) [0..<N] (fg[0 := 0])))
         = fg[0 := (\<Sum>t<N. state_term vars t) + (\<Sum>t<N - 1. actuator_term vars t)
                   + (\<Sum>t<N - 2. gap_term vars t)]"
proof -
  have ne: "fg[0 := r] \<noteq> []" for r using assms by simp
  have s: "sum_list (map f [0..<n]) = (\<Sum>t<n. f t)" for f :: "nat \<Rightarrow> real" and n
    by (simp add: interv_sum_list_conv_sum_set_nat atLeast0LessThan)
  have 1: "fold (cost_state vars) [0..<N] (fg[0 := 0]) = fg[0 := (\<Sum>t<N. state_term vars t)]"
    using assms
    by (subst fold_add0 [where f = "state_term vars"])
       (simp_all add: cost_state_add state_term_def s)
  have 2: "fold (cost_actuator vars) [0..<N - 1] (fg[0 := r])
             = fg[0 := r + (\<Sum>t<N - 1. actuator_term vars t)]" for r
    using assms
    by (subst fold_add0 [where f = "actuator_term vars"])
       (simp_all add: cost_actuator_add actuator_term_def s)
  have 3: "fold (cost_gap vars) [0..<N - 2] (fg[0 := r])
             = fg[0 := r + (\<Sum>t<N - 2. gap_term vars t)]" for r
    using assms
    by (subst fold_add0 [where f = "gap_term vars"])
       (simp_all add: cost_gap_add gap_term_def s)
  show ?thesis by (simp only: 1 2 3)
qed

lemma FG_eval_cost:
  assumes "fg \<noteq> []"
  shows "FG_eval coeffs fg vars ! 0 =
     (\<Sum>t<N. state_term vars t) + (\<Sum>t<N - 1. actuator_term vars t)
      + (\<Sum>t<N - 2. gap_term vars t)"
proof -
  have "FG_eval coeffs fg vars ! 0 =
      (fold (cost_gap vars) [0..<N - 2]
           (fold (cost_actuator vars) [0..<N - 1]
             (fold (cost_state vars) [0..<N] (fg[0 := 0]))))
        [x_start + 1 := vars ! x_start, y_start + 1 := vars ! y_start,
         psi_start + 1 := vars ! psi_start, v_start + 1 := vars ! v_start,
         cte_start + 1 := vars ! cte_start, epsi_start + 1 := vars ! epsi_start] ! 0"
    unfolding FG_eval_def Let_def by (rule fold_constraint_other) simp
  also have "\<dots> = (\<Sum>t<N. state_term vars t) + (\<Sum>t<N - 1. actuator_term vars t)
      + (\<Sum>t<N - 2. gap_term vars t)"
    unfolding cost_loops [OF assms] using assms by simp
  finally show ?thesis .
qed

section \<open>The objective\<close>

text \<open>
  C6: for every decision vector, the objective that \<open>FG_eval\<close> leaves in \<open>fg[0]\<close> is the
  sum over \<open>t < N\<close> of \<open>1000 cte\<^sub>t\<^sup>2 + 1000 epsi\<^sub>t\<^sup>2 + 1 (v\<^sub>t - 80)\<^sup>2\<close>, plus the sum over
  \<open>t < N - 1\<close> of \<open>100 delta\<^sub>t\<^sup>2 + 10 a\<^sub>t\<^sup>2\<close>, plus the sum over \<open>t < N - 2\<close> of
  \<open>10 (delta\<^sub>t\<^sub>+\<^sub>1 - delta\<^sub>t)\<^sup>2 + 10 (a\<^sub>t\<^sub>+\<^sub>1 - a\<^sub>t)\<^sup>2\<close>.
\<close>

theorem objective_is_weighted_sum:
  assumes "fg \<noteq> []"
  shows "FG_eval coeffs fg vars ! 0 =
      (\<Sum>t<N. 1000 * (vars ! (cte_start + t)) ^ 2 + 1000 * (vars ! (epsi_start + t)) ^ 2
               + 1 * (vars ! (v_start + t) - 80) ^ 2)
    + (\<Sum>t<N - 1. 100 * (vars ! (delta_start + t)) ^ 2 + 10 * (vars ! (a_start + t)) ^ 2)
    + (\<Sum>t<N - 2. 10 * (vars ! (delta_start + t + 1) - vars ! (delta_start + t)) ^ 2
                   + 10 * (vars ! (a_start + t + 1) - vars ! (a_start + t)) ^ 2)"
  unfolding FG_eval_cost [OF assms]
  by (simp add: state_term_def actuator_term_def gap_term_def weight_defs ref_v_def)

theorem objective_is_weighted_sum_witness:
  "FG_eval [0, 0, 0, 0] (replicate (Suc n_constraints) 0) (replicate n_vars 0) ! 0 = 96000"
proof -
  have ne: "replicate (Suc n_constraints) (0::real) \<noteq> []" by simp
  have z: "replicate n_vars (0::real) ! i = 0" if "i < n_vars" for i
    using that by simp
  have "FG_eval [0, 0, 0, 0] (replicate (Suc n_constraints) 0) (replicate n_vars 0) ! 0
      = (\<Sum>t<N. 1000 * (0::real) ^ 2 + 1000 * 0 ^ 2 + 1 * (0 - 80) ^ 2)
        + (\<Sum>t<N - 1. 100 * 0 ^ 2 + 10 * 0 ^ 2)
        + (\<Sum>t<N - 2. 10 * (0 - 0) ^ 2 + 10 * (0 - 0) ^ 2)"
    unfolding objective_is_weighted_sum [OF ne]
    by (intro arg_cong2 [where f = "(+)"] sum.cong refl)
       (simp_all add: z n_vars_def start_defs N_def)
  also have "\<dots> = 96000" by (simp add: N_def)
  finally show ?thesis .
qed


section \<open>The constraint entries\<close>

lemma cost_state_cong:
  assumes "i < v_start"
  shows "cost_state (vars[i := z]) = cost_state vars"
  using assms by (auto simp add: cost_state_def start_defs Let_def fun_eq_iff)

lemma cost_actuator_cong:
  assumes "i < v_start"
  shows "cost_actuator (vars[i := z]) = cost_actuator vars"
  using assms by (auto simp add: cost_actuator_def start_defs Let_def fun_eq_iff)

lemma cost_gap_cong:
  assumes "i < v_start"
  shows "cost_gap (vars[i := z]) = cost_gap vars"
  using assms by (auto simp add: cost_gap_def start_defs Let_def fun_eq_iff)

lemma constraint_step_cong:
  assumes "t < N - 2" "i = x_start + (N - 1) \<or> i = y_start + (N - 1) \<or> i = psi_start + (N - 1)"
  shows "constraint_step coeffs (vars[i := z]) t = constraint_step coeffs vars t"
  using assms by (auto simp add: constraint_step_def start_defs N_def Let_def fun_eq_iff)

lemma FG_eval_last_position_unread:
  assumes "i = x_start + (N - 1) \<or> i = y_start + (N - 1) \<or> i = psi_start + (N - 1)"
  shows "FG_eval coeffs fg (vars[i := z]) = FG_eval coeffs fg vars"
proof -
  have lt: "i < v_start" using assms by (auto simp: start_defs N_def)
  have c: "fold (constraint_step coeffs (vars[i := z])) [0..<N - 2] g
         = fold (constraint_step coeffs vars) [0..<N - 2] g" for g
    by (rule fold_cong) (simp_all add: constraint_step_cong [OF _ assms])
  have p: "vars[i := z] ! x_start = vars ! x_start" "vars[i := z] ! y_start = vars ! y_start"
    "vars[i := z] ! psi_start = vars ! psi_start" "vars[i := z] ! v_start = vars ! v_start"
    "vars[i := z] ! cte_start = vars ! cte_start" "vars[i := z] ! epsi_start = vars ! epsi_start"
    using assms by (auto simp: start_defs N_def)
  show ?thesis
    unfolding FG_eval_def Let_def c p
    by (simp only: cost_state_cong [OF lt] cost_actuator_cong [OF lt] cost_gap_cong [OF lt])
qed

section \<open>The vectors built by MPC::Solve\<close>

lemma length_fill [simp]: "length (fill lo hi c xs) = length xs"
  unfolding fill_def by (rule length_fold_keep) simp

lemma fill_nth:
  assumes "i < length xs"
  shows "fill lo hi c xs ! i = (if lo \<le> i \<and> i < hi then c else xs ! i)"
proof -
  have "fold (\<lambda>i xs. xs[i := c]) ks xs ! i = (if i \<in> set ks then c else xs ! i)"
    if "i < length xs" for ks xs
    using that by (induction ks arbitrary: xs) (auto simp: nth_list_update)
  then show ?thesis using assms by (simp add: fill_def)
qed

lemma length_vars_lowerbound [simp]: "length vars_lowerbound = n_vars"
  by (simp add: vars_lowerbound_def Dvector_def)

lemma length_vars_upperbound [simp]: "length vars_upperbound = n_vars"
  by (simp add: vars_upperbound_def Dvector_def)

lemma vars_lowerbound_nth:
  "i < n_vars \<Longrightarrow> vars_lowerbound ! i =
     (if i < delta_start then - (10 ^ 19) else if i < a_start then - 0.436332 else - 1)"
  by (simp add: vars_lowerbound_def Dvector_def fill_nth start_defs n_vars_def N_def)

lemma vars_upperbound_nth:
  "i < n_vars \<Longrightarrow> vars_upperbound ! i =
     (if i < delta_start then 10 ^ 19 else if i < a_start then 0.436332 else 1)"
  by (simp add: vars_upperbound_def Dvector_def fill_nth start_defs n_vars_def N_def)

lemma fold_push_back:
  "fold (\<lambda>i result. (result @ [f i]) @ [g i]) ts r = r @ concat (map (\<lambda>i. [f i, g i]) ts)"
  by (induction ts arbitrary: r) simp_all

lemma Solve_eq:
  "Solve solver state coeffs =
     [sol_x (solution_of solver state coeffs) ! delta_start,
      sol_x (solution_of solver state coeffs) ! a_start] @
     concat (map (\<lambda>t. [sol_x (solution_of solver state coeffs) ! (x_start + t),
                        sol_x (solution_of solver state coeffs) ! (y_start + t)]) [0..<N - 1])"
  unfolding Solve_def Let_def fold_push_back by simp

lemma length_concat_pairs: "length (concat (map (\<lambda>i. [f i, g i]) ts)) = 2 * length ts"
  by (induction ts) simp_all

lemma concat_pairs_nth:
  assumes "i < n"
  shows "concat (map (\<lambda>i. [f i, g i]) [0..<n]) ! (2 * i) = f i"
    and "concat (map (\<lambda>i. [f i, g i]) [0..<n]) ! (2 * i + 1) = g i"
  using assms
proof (induction n)
  case 0
  { case 1 then show ?case by simp }
  { case 2 then show ?case by simp }
next
  case (Suc n)
  have len: "length (concat (map (\<lambda>i. [f i, g i]) [0..<n])) = 2 * n"
    by (simp add: length_concat_pairs)
  { case 1
    show ?case
    proof (cases "i < n")
      case True
      then show ?thesis using Suc.IH(1) by (simp add: nth_append len)
    next
      case False
      then have "i = n" using 1 by simp
      then show ?thesis by (simp add: nth_append len)
    qed }
  { case 2
    show ?case
    proof (cases "i < n")
      case True
      then show ?thesis using Suc.IH(2) by (simp add: nth_append len)
    next
      case False
      then have "i = n" using 2 by simp
      then show ?thesis by (simp add: nth_append len)
    qed }
qed

lemma split_loop:
  assumes "\<And>i. i < n \<Longrightarrow> vs ! (2 + 2 * i) = f i \<and> vs ! (3 + 2 * i) = g i"
  shows "fold (\<lambda>i (mpc_x_vals, mpc_y_vals).
            if i mod 2 = 0 then (mpc_x_vals @ [vs ! i], mpc_y_vals)
            else (mpc_x_vals, mpc_y_vals @ [vs ! i])) [2..<2 + 2 * n] ([], [])
         = (map f [0..<n], map g [0..<n])"
  using assms
proof (induction n)
  case 0
  then show ?case by simp
next
  case (Suc n)
  have up: "[2..<2 + 2 * Suc n] = [2..<2 + 2 * n] @ [2 + 2 * n, 3 + 2 * n]"
    by (simp add: upt_rec [of "2 + 2 * n"] upt_rec [of "3 + 2 * n"])
  have ih: "fold (\<lambda>i (mpc_x_vals, mpc_y_vals).
            if i mod 2 = 0 then (mpc_x_vals @ [vs ! i], mpc_y_vals)
            else (mpc_x_vals, mpc_y_vals @ [vs ! i])) [2..<2 + 2 * n] ([], [])
         = (map f [0..<n], map g [0..<n])"
  proof (rule Suc.IH)
    fix i assume "i < n"
    then have "i < Suc n" by simp
    then show "vs ! (2 + 2 * i) = f i \<and> vs ! (3 + 2 * i) = g i" by (rule Suc.prems)
  qed
  have m: "(2 + 2 * n) mod 2 = 0" "(3 + 2 * n) mod 2 \<noteq> 0" by presburger+
  have v: "vs ! (2 + 2 * n) = f n" "vs ! (3 + 2 * n) = g n"
    using Suc.prems [of n] by simp_all
  show ?case
    unfolding up fold_append comp_def ih
    using m v by simp
qed

lemma predicted_line_pairs:
  "predicted_line (d # a # concat (map (\<lambda>i. [f i, g i]) [0..<n])) = (map f [0..<n], map g [0..<n])"
proof -
  let ?vs = "d # a # concat (map (\<lambda>i. [f i, g i]) [0..<n])"
  have len: "length ?vs = 2 + 2 * n" by (simp add: length_concat_pairs)
  have "?vs ! (2 + 2 * i) = f i \<and> ?vs ! (3 + 2 * i) = g i" if "i < n" for i
    using concat_pairs_nth [OF that, of f g] by (simp add: numeral_3_eq_3)
  then show ?thesis
    unfolding predicted_line_def len by (rule split_loop)
qed


lemma solution_of_const [simp]: "solution_of (const_solver r) state coeffs = r"
  by (simp add: solution_of_def const_solver_def)

lemma solution_of_with_status:
  "solution_of (with_status st solver) state coeffs
     = (solution_of solver state coeffs)\<lparr>sol_status := st\<rparr>"
  by (simp add: solution_of_def with_status_def)

lemma Solve_nth_0: "Solve solver state coeffs ! 0 = sol_x (solution_of solver state coeffs) ! delta_start"
  by (simp add: Solve_eq)

lemma Solve_nth_1: "Solve solver state coeffs ! 1 = sol_x (solution_of solver state coeffs) ! a_start"
  by (simp add: Solve_eq)

lemma length_Solve: "length (Solve solver state coeffs) = 2 + 2 * (N - 1)"
  by (simp add: Solve_eq length_concat_pairs)

lemma onMessage_Inr:
  assumes "initial_state qr j = Inr (state, coeffs)"
  shows "onMessage_telemetry qr solver j =
     Inr \<lparr>steering_angle = - (Solve solver state coeffs ! 0),
          throttle = Solve solver state coeffs ! 1,
          next_x = fst (reference_line coeffs), next_y = snd (reference_line coeffs),
          mpc_x = fst (predicted_line (Solve solver state coeffs)),
          mpc_y = snd (predicted_line (Solve solver state coeffs))\<rparr>"
  using assms by (simp add: onMessage_telemetry_def Let_def split: prod.splits)

lemma onMessage_Inl:
  assumes "initial_state qr j = Inl e"
  shows "onMessage_telemetry qr solver j = Inl e"
  using assms by (simp add: onMessage_telemetry_def)

section \<open>What MPC::Solve returns\<close>

text \<open>
  C3 (as amended): the vector returned by \<open>MPC::Solve\<close> holds the first actuation pair
  \<open>(delta\<^sub>0, a\<^sub>0)\<close> and then the predicted positions \<open>(x\<^sub>t, y\<^sub>t)\<close> for \<open>t = 0, \<dots>, N - 2\<close>,
  starting at \<open>t = 0\<close>: \<open>N - 1\<close> ordered pairs, which the handler splits from index 2 on
  into \<open>mpc_x\<close> and \<open>mpc_y\<close>.
\<close>

theorem Solve_result_layout:
  "Solve solver state coeffs =
     [sol_x (solution_of solver state coeffs) ! delta_start,
      sol_x (solution_of solver state coeffs) ! a_start] @
     concat (map (\<lambda>t. [sol_x (solution_of solver state coeffs) ! (x_start + t),
                        sol_x (solution_of solver state coeffs) ! (y_start + t)]) [0..<N - 1]) \<and>
   length (Solve solver state coeffs) = 2 + 2 * (N - 1) \<and>
   predicted_line (Solve solver state coeffs) =
     (map (\<lambda>t. sol_x (solution_of solver state coeffs) ! (x_start + t)) [0..<N - 1],
      map (\<lambda>t. sol_x (solution_of solver state coeffs) ! (y_start + t)) [0..<N - 1])"
proof (intro conjI)
  show "Solve solver state coeffs =
     [sol_x (solution_of solver state coeffs) ! delta_start,
      sol_x (solution_of solver state coeffs) ! a_start] @
     concat (map (\<lambda>t. [sol_x (solution_of solver state coeffs) ! (x_start + t),
                        sol_x (solution_of solver state coeffs) ! (y_start + t)]) [0..<N - 1])"
    by (rule Solve_eq)
  show "length (Solve solver state coeffs) = 2 + 2 * (N - 1)"
    by (rule length_Solve)
  show "predicted_line (Solve solver state coeffs) =
     (map (\<lambda>t. sol_x (solution_of solver state coeffs) ! (x_start + t)) [0..<N - 1],
      map (\<lambda>t. sol_x (solution_of solver state coeffs) ! (y_start + t)) [0..<N - 1])"
    unfolding Solve_eq append_Cons append_Nil by (rule predicted_line_pairs)
qed

text \<open>
  Against C3 as stated (positions for \<open>t \<ge> 2\<close> only): with the solver returning the vector
  \<open>0, 1, \<dots>, 117\<close>, the first pair returned is \<open>(x\<^sub>0, y\<^sub>0) = (0, 15)\<close>, which is none of the
  positions with \<open>t \<ge> 2\<close>.
\<close>

theorem positions_start_at_0_counterexample:
  "(Solve (const_solver ramp_result) [0, 0, 0, 0, 0, 0] [0, 0, 0, 0] ! 2,
    Solve (const_solver ramp_result) [0, 0, 0, 0, 0, 0] [0, 0, 0, 0] ! 3)
   \<notin> set (positions_from 2 (sol_x ramp_result))"
proof -
  have up: "[0..<N - 1] = 0 # [1..<N - 1]" by (simp add: N_def upt_rec [of 0])
  have 2: "Solve (const_solver ramp_result) [0, 0, 0, 0, 0, 0] [0, 0, 0, 0] ! 2 = 0"
    unfolding Solve_eq up by (simp add: ramp_result_def start_defs n_vars_def N_def)
  have 3: "Solve (const_solver ramp_result) [0, 0, 0, 0, 0, 0] [0, 0, 0, 0] ! 3 = 15"
    unfolding Solve_eq up by (simp add: ramp_result_def start_defs n_vars_def N_def numeral_3_eq_3)
  show ?thesis
    unfolding 2 3 by (auto simp: positions_from_def ramp_result_def start_defs n_vars_def N_def)
qed

text \<open>
  C2 (as amended): \<open>MPC::Solve\<close> compares the status of the solver with \<open>success\<close> in a flag
  that nothing reads. Whatever the status is, the returned vector and the whole reply of the
  handler are the same, and the command is the solver's \<open>x[delta_start]\<close>, \<open>x[a_start]\<close>:
  there is no fallback and no report.
\<close>

theorem Solve_ignores_status:
  "Solve (with_status st solver) state coeffs = Solve solver state coeffs \<and>
   onMessage_telemetry qr (with_status st solver) j = onMessage_telemetry qr solver j \<and>
   Solve solver state coeffs ! 0 = sol_x (solution_of solver state coeffs) ! delta_start \<and>
   Solve solver state coeffs ! 1 = sol_x (solution_of solver state coeffs) ! a_start"
proof -
  have s: "Solve (with_status st solver) state coeffs = Solve solver state coeffs" for state coeffs
    by (simp add: Solve_eq solution_of_with_status)
  have "onMessage_telemetry qr (with_status st solver) j = onMessage_telemetry qr solver j"
    by (simp add: onMessage_telemetry_def s split: sum.splits prod.splits)
  then show ?thesis
    using s Solve_nth_0 Solve_nth_1 by simp
qed


lemma initial_state_straight:
  "initial_state (const_qr [0, 0, 0, 0]) straight_telemetry
     = Inr (latency_state [0, 0, 0, 0] 10 0 0, [0, 0, 0, 0])"
  by (simp add: initial_state_def straight_telemetry_def Let_def polyfit_def const_qr_def
      eval_nat_numeral)

text \<open>
  Against C2 as stated: the solver stops with \<open>maxiter_exceeded\<close> at a point with steering
  \<open>0.3\<close> and acceleration \<open>1\<close>, the previous command being \<open>(0, 0)\<close>. The handler replies with
  steering \<open>- 0.3\<close> and full throttle: neither the previous command nor zero steering with a
  decelerating throttle.
\<close>

theorem failed_solve_is_emitted_counterexample:
  "sol_status failed_result \<noteq> success \<and>
   tel_steering_angle straight_telemetry = 0 \<and> tel_throttle straight_telemetry = 0 \<and>
   \<not> isl (onMessage_telemetry (const_qr [0, 0, 0, 0]) (const_solver failed_result) straight_telemetry) \<and>
   steering_angle (projr (onMessage_telemetry (const_qr [0, 0, 0, 0]) (const_solver failed_result)
      straight_telemetry)) = - 0.3 \<and>
   throttle (projr (onMessage_telemetry (const_qr [0, 0, 0, 0]) (const_solver failed_result)
      straight_telemetry)) = 1"
  unfolding onMessage_Inr [OF initial_state_straight] Solve_nth_0 Solve_nth_1
  by (simp add: failed_result_def straight_telemetry_def start_defs n_vars_def N_def)

section \<open>Bounds\<close>

lemma length_vars_init [simp]: "length (vars_init state) = n_vars"
  by (simp add: vars_init_def Dvector_def Let_def)

lemma vars_bounds_ordered: "i < n_vars \<Longrightarrow> vars_lowerbound ! i \<le> vars_upperbound ! i"
  by (simp add: vars_lowerbound_nth vars_upperbound_nth)

lemma ipopt_contract_solution:
  assumes "ipopt_contract solver" "i < n_vars"
  shows "vars_lowerbound ! i \<le> sol_x (solution_of solver state coeffs) ! i"
    and "sol_x (solution_of solver state coeffs) ! i \<le> vars_upperbound ! i"
proof -
  have pre: "length vars_lowerbound = length (vars_init state) \<and>
      length vars_upperbound = length (vars_init state) \<and>
      (\<forall>i<length (vars_init state). vars_lowerbound ! i \<le> vars_upperbound ! i)"
    by (simp add: vars_bounds_ordered)
  have "\<forall>i<length (vars_init state).
      vars_lowerbound ! i \<le> sol_x (solution_of solver state coeffs) ! i \<and>
      sol_x (solution_of solver state coeffs) ! i \<le> vars_upperbound ! i"
    unfolding solution_of_def
    using assms(1) [unfolded ipopt_contract_def, rule_format, OF pre] by blast
  then show "vars_lowerbound ! i \<le> sol_x (solution_of solver state coeffs) ! i"
    and "sol_x (solution_of solver state coeffs) ! i \<le> vars_upperbound ! i"
    using assms(2) by simp_all
qed

lemma ipopt_contract_clip: "ipopt_contract clip_solver"
  unfolding ipopt_contract_def clip_solver_def by (auto simp del: upt_Suc)

text \<open>
  C7: the solver is called with the bound vectors \<open>vars_lowerbound\<close> and \<open>vars_upperbound\<close>,
  in which every steering variable is bounded by \<open>\<plusminus> 0.436332\<close>, every acceleration variable
  by \<open>\<plusminus> 1\<close>, every state variable by \<open>\<plusminus> 10\<^sup>1\<^sup>9\<close>; hence, the solver returning a point within
  the bounds it is called with, every control of the solution and the returned command
  satisfy \<open>|steering| \<le> 0.436332\<close> and \<open>|acceleration| \<le> 1\<close>.
\<close>

theorem actuator_bounds:
  "solution_of solver state coeffs =
     solver options (vars_init state) vars_lowerbound vars_upperbound
       (constraints_lowerbound state) (constraints_upperbound state) (FG_eval coeffs) \<and>
   (\<forall>t<N - 1. vars_lowerbound ! (delta_start + t) = - 0.436332 \<and>
              vars_upperbound ! (delta_start + t) = 0.436332) \<and>
   (\<forall>t<N - 1. vars_lowerbound ! (a_start + t) = - 1 \<and> vars_upperbound ! (a_start + t) = 1) \<and>
   (\<forall>i<6 * N. vars_lowerbound ! i = - (10 ^ 19) \<and> vars_upperbound ! i = 10 ^ 19) \<and>
   length vars_lowerbound = 6 * N + 2 * (N - 1) \<and>
   length vars_upperbound = 6 * N + 2 * (N - 1) \<and>
   length (vars_init state) = 6 * N + 2 * (N - 1) \<and>
   (ipopt_contract solver \<longrightarrow>
      (\<forall>t<N - 1. \<bar>sol_x (solution_of solver state coeffs) ! (delta_start + t)\<bar> \<le> 0.436332 \<and>
                 \<bar>sol_x (solution_of solver state coeffs) ! (a_start + t)\<bar> \<le> 1) \<and>
      \<bar>Solve solver state coeffs ! 0\<bar> \<le> 0.436332 \<and>
      \<bar>Solve solver state coeffs ! 1\<bar> \<le> 1)"
proof -
  have h: "solution_of solver state coeffs =
     solver options (vars_init state) vars_lowerbound vars_upperbound
       (constraints_lowerbound state) (constraints_upperbound state) (FG_eval coeffs)"
    by (rule solution_of_def)
  have d: "vars_lowerbound ! (delta_start + t) = - 0.436332 \<and>
           vars_upperbound ! (delta_start + t) = 0.436332" if "t < N - 1" for t
    using that
    by (simp add: vars_lowerbound_nth vars_upperbound_nth n_vars_def start_defs N_def)
  have a: "vars_lowerbound ! (a_start + t) = - 1 \<and> vars_upperbound ! (a_start + t) = 1"
    if "t < N - 1" for t
    using that
    by (simp add: vars_lowerbound_nth vars_upperbound_nth n_vars_def start_defs N_def)
  have s: "vars_lowerbound ! i = - (10 ^ 19) \<and> vars_upperbound ! i = 10 ^ 19" if "i < 6 * N" for i
    using that
    by (simp add: vars_lowerbound_nth vars_upperbound_nth n_vars_def start_defs N_def)
  have l: "length vars_lowerbound = 6 * N + 2 * (N - 1)" "length vars_upperbound = 6 * N + 2 * (N - 1)"
    "length (vars_init state) = 6 * N + 2 * (N - 1)"
    by (simp_all add: n_vars_def)
  have r: "\<bar>sol_x (solution_of solver state coeffs) ! (delta_start + t)\<bar> \<le> 0.436332 \<and>
           \<bar>sol_x (solution_of solver state coeffs) ! (a_start + t)\<bar> \<le> 1"
    if c: "ipopt_contract solver" and t: "t < N - 1" for t
  proof -
    have i: "delta_start + t < n_vars" "a_start + t < n_vars"
      using t by (simp_all add: n_vars_def start_defs N_def)
    show ?thesis
      using ipopt_contract_solution [OF c i(1), of state coeffs]
        ipopt_contract_solution [OF c i(2), of state coeffs] d [OF t] a [OF t]
      by (simp add: abs_le_iff)
  qed
  have r0: "\<bar>sol_x (solution_of solver state coeffs) ! delta_start\<bar> \<le> 0.436332 \<and>
            \<bar>sol_x (solution_of solver state coeffs) ! a_start\<bar> \<le> 1"
    if "ipopt_contract solver"
    using r [OF that, of 0] by (simp add: N_def)
  show ?thesis
    unfolding Solve_nth_0 Solve_nth_1 using h d a s l r r0 by blast
qed

theorem actuator_bounds_witness:
  "ipopt_contract clip_solver \<and>
   \<bar>Solve clip_solver [0, 0, 0, 0, 0, 1] [0, 0, 0, 0] ! 0\<bar> \<le> 0.436332 \<and>
   \<bar>Solve clip_solver [0, 0, 0, 0, 0, 1] [0, 0, 0, 0] ! 1\<bar> \<le> 1"
  using ipopt_contract_clip actuator_bounds [of clip_solver "[0, 0, 0, 0, 0, 1]" "[0, 0, 0, 0]"]
  by blast

section \<open>The handler up to the call of the optimizer\<close>

lemma waypoints_loop_Inr:
  assumes "\<forall>i\<in>set ks. i < length py_s"
  shows "\<exists>xv yv. waypoints_loop px_s py_s px py psi ks (xvals, yvals) = Inr (xv, yv) \<and>
           length xv = length xvals \<and> length yv = length yvals"
  using assms
proof (induction ks arbitrary: xvals yvals)
  case Nil
  then show ?case by simp
next
  case (Cons k ks)
  have k: "\<not> length py_s \<le> k" using Cons.prems by simp
  have r: "\<forall>i\<in>set ks. i < length py_s" using Cons.prems by simp
  show ?case
    using Cons.IH [OF r, of "xvals[k := (px_s ! k - px) * cos (- psi) - (py_s ! k - py) * sin (- psi)]"
        "yvals[k := (px_s ! k - px) * sin (- psi) + (py_s ! k - py) * cos (- psi)]"] k
    by (simp add: Let_def)
qed

lemma initial_state_Inr:
  assumes "initial_state qr j = Inr (state, coeffs)"
  shows "state = latency_state coeffs (tel_speed j) (- tel_steering_angle j) (tel_throttle j)"
  using assms
  by (auto simp: initial_state_def Let_def split: sum.splits prod.splits)

lemma polyfit_order:
  assumes "int (length xvals) \<le> order"
  shows "polyfit qr xvals yvals order = Inl AssertionFailure"
  using assms by (simp add: polyfit_def)

lemma initial_state_short:
  assumes "length (ptsx j) = length (ptsy j)" "length (ptsx j) < 4"
  shows "initial_state qr j = Inl AssertionFailure"
proof -
  obtain xv yv where w: "waypoints_loop (ptsx j) (ptsy j) (tel_x j) (tel_y j) (tel_psi j)
        [0..<length (ptsx j)] (replicate (length (ptsx j)) 0, replicate (length (ptsy j)) 0)
      = Inr (xv, yv)" and l: "length xv = length (ptsx j)"
    using waypoints_loop_Inr [of "[0..<length (ptsx j)]" "ptsy j" "ptsx j" "tel_x j" "tel_y j"
        "tel_psi j" "replicate (length (ptsx j)) 0" "replicate (length (ptsy j)) 0"] assms(1)
    by auto
  have "polyfit qr xv yv 3 = Inl AssertionFailure"
    using l assms(2) by (intro polyfit_order) simp
  then show ?thesis
    by (simp add: initial_state_def Let_def w)
qed

text \<open>
  C4: a telemetry input with fewer than 4 waypoints, or a fit whose order is at least the
  number of points, fails the assertion of \<open>polyfit\<close>: the handler stops there, whatever the
  QR solver and the optimizer are, so no fit is made and the optimizer is not reached.
\<close>

theorem too_few_waypoints:
  "(length (ptsx j) = length (ptsy j) \<and> length (ptsx j) < 4 \<longrightarrow>
      initial_state qr j = Inl AssertionFailure \<and>
      onMessage_telemetry qr solver j = Inl AssertionFailure) \<and>
   (int (length xvals) \<le> order \<longrightarrow> polyfit qr xvals yvals order = Inl AssertionFailure)"
  using initial_state_short [of j qr] onMessage_Inl [of qr j AssertionFailure solver]
    polyfit_order [of xvals order qr yvals]
  by blast

theorem too_few_waypoints_witness:
  "length (ptsx short_telemetry) = length (ptsy short_telemetry) \<and>
   length (ptsx short_telemetry) < 4 \<and>
   onMessage_telemetry (const_qr [0, 0, 0, 0]) (const_solver zero_result) short_telemetry
     = Inl AssertionFailure \<and>
   int (length [0, 1, 2 :: real]) \<le> 3 \<and>
   polyfit (const_qr [0, 0, 0, 0]) [0, 1, 2] [0, 0, 0] 3 = Inl AssertionFailure"
proof -
  have h: "length (ptsx short_telemetry) = length (ptsy short_telemetry) \<and>
      length (ptsx short_telemetry) < 4"
    by (simp add: short_telemetry_def)
  have g: "int (length [0, 1, 2 :: real]) \<le> 3" by simp
  show ?thesis
    using h g too_few_waypoints [of short_telemetry "const_qr [0, 0, 0, 0]"
        "const_solver zero_result" "[0, 1, 2]" 3 "[0, 0, 0]"]
    by blast
qed

section \<open>Latency\<close>

text \<open>
  C5 (as amended): the latency adjustment starts from \<open>x = 0, y = 0, psi = 0\<close>; heading and
  speed follow the kinematic relations of the dynamics constraints over \<open>dt_lat = 0.1\<close>, the
  position uses the cosine and sine of the steering angle \<open>delta\<close> (not of \<open>psi\<close>), and the
  errors are \<open>polyeval coeffs 0 + v sin(delta) dt_lat\<close> and \<open>atan(c\<^sub>1) + v delta / Lf dt_lat\<close>.
\<close>

theorem latency_state_eq:
  "latency_state coeffs v delta a =
     [v * cos delta * 0.1, v * sin delta * 0.1, v * delta / 2.67 * 0.1, v + a * 0.1,
      polyeval coeffs 0 + v * sin delta * 0.1, arctan (coeffs ! 1) + v * delta / 2.67 * 0.1] \<and>
   latency_state coeffs v delta a ! 2 = kinematic_update 0 0 0 v delta a 0.1 ! 2 \<and>
   latency_state coeffs v delta a ! 3 = kinematic_update 0 0 0 v delta a 0.1 ! 3"
  by (simp add: latency_state_def kinematic_update_def Lf_def Let_def numeral_3_eq_3)

text \<open>
  Against C5 as stated: at speed 10 and steering 0.1 the projected position is not the one
  the kinematic relations give from \<open>psi = 0\<close> (there \<open>y\<close> stays 0, here it is \<open>sin 0.1\<close>).
\<close>

theorem latency_position_counterexample:
  "take 4 (latency_state [0, 0, 0, 0] 10 0.1 0) \<noteq> kinematic_update 0 0 0 10 0.1 0 0.1"
proof -
  have "(0.1 :: real) < pi" using pi_ge_two by linarith
  then have "0 < sin (0.1 :: real)" by (intro sin_gt_zero) simp_all
  then show ?thesis
    by (simp add: latency_state_def kinematic_update_def Let_def)
qed

section \<open>The sign of the steering angle\<close>

text \<open>
  C8 (as amended): the sign of the steering is flipped at two places, once on the way in
  (the state handed to the optimizer is computed from the negated steering angle of the
  telemetry) and once on the way out (the steering sent is the negated first steering
  command of the optimizer).
\<close>

theorem steering_sign_flipped_twice:
  assumes "initial_state qr j = Inr (state, coeffs)"
  shows "state = latency_state coeffs (tel_speed j) (- tel_steering_angle j) (tel_throttle j) \<and>
    \<not> isl (onMessage_telemetry qr solver j) \<and>
    steering_angle (projr (onMessage_telemetry qr solver j)) = - (Solve solver state coeffs ! 0)"
  using initial_state_Inr [OF assms] onMessage_Inr [OF assms, of solver] by simp

lemma initial_state_left:
  "initial_state (const_qr [0, 0, 0, 0]) left_telemetry
     = Inr (latency_state [0, 0, 0, 0] 10 (- 0.1) 0, [0, 0, 0, 0])"
  by (simp add: initial_state_def left_telemetry_def Let_def polyfit_def const_qr_def
      eval_nat_numeral)

theorem steering_sign_flipped_twice_witness:
  "initial_state (const_qr [0, 0, 0, 0]) left_telemetry
     = Inr (latency_state [0, 0, 0, 0] 10 (- 0.1) 0, [0, 0, 0, 0]) \<and>
   steering_angle (projr (onMessage_telemetry (const_qr [0, 0, 0, 0]) (const_solver failed_result)
       left_telemetry)) = - 0.3"
proof -
  have "Solve (const_solver failed_result) (latency_state [0, 0, 0, 0] 10 (- 0.1) 0) [0, 0, 0, 0] ! 0
      = 0.3"
    unfolding Solve_nth_0 by (simp add: failed_result_def start_defs n_vars_def N_def)
  then show ?thesis
    using initial_state_left
      steering_sign_flipped_twice [OF initial_state_left, of "const_solver failed_result"]
    by simp
qed

text \<open>
  Against C8 as stated (one sign transform, on the way out): with steering 0.1 in the
  telemetry, the state handed to the optimizer is not the one computed from the steering
  angle as received.
\<close>

theorem single_sign_transform_counterexample:
  "initial_state (const_qr [0, 0, 0, 0]) left_telemetry \<noteq>
     Inr (latency_state [0, 0, 0, 0] (tel_speed left_telemetry)
            (tel_steering_angle left_telemetry) (tel_throttle left_telemetry), [0, 0, 0, 0])"
  unfolding initial_state_left
  by (simp add: latency_state_def left_telemetry_def Let_def)

section \<open>polyeval and polyfit\<close>

lemma fold_sum_upt:
  "fold (\<lambda>i (r::real). r + f i) [0..<n] a = a + (\<Sum>i<n. f i)"
  by (induction n) simp_all

lemma polyeval_sum: "polyeval coeffs z = (\<Sum>i<length coeffs. coeffs ! i * z ^ i)"
  by (simp add: polyeval_def fold_sum_upt)

lemma shape_mat_set: "shape A n m \<Longrightarrow> shape (mat_set A j i c) n m"
  by (cases "j < n") (auto simp: shape_def mat_set_def nth_list_update)

lemma mat_set_nth:
  assumes "shape A n m" "j < n" "i < m" "j' < n"
  shows "mat_set A j i c ! j' ! i' = (if j' = j \<and> i' = i then c else A ! j' ! i')"
  using assms by (auto simp: shape_def mat_set_def nth_list_update)

lemma ones_loop:
  assumes "shape A n m" "0 < m" "k \<le> n"
  shows "shape (fold (\<lambda>i A. mat_set A i 0 1) [0..<k] A) n m \<and>
         (\<forall>j<k. fold (\<lambda>i A. mat_set A i 0 1) [0..<k] A ! j ! 0 = 1)"
  using assms(3)
proof (induction k)
  case 0
  then show ?case using assms(1) by simp
next
  case (Suc k)
  let ?B = "fold (\<lambda>i A. mat_set A i 0 1) [0..<k] A"
  have B: "shape ?B n m" "\<forall>j<k. ?B ! j ! 0 = 1" using Suc by simp_all
  have k: "k < n" using Suc.prems by simp
  have s: "fold (\<lambda>i A. mat_set A i 0 1) [0..<Suc k] A = mat_set ?B k 0 1" by simp
  show ?case
    unfolding s
  proof (intro conjI allI impI)
    show "shape (mat_set ?B k 0 1) n m" by (rule shape_mat_set [OF B(1)])
    fix j assume "j < Suc k"
    then have "j < n" using k by simp
    show "mat_set ?B k 0 1 ! j ! 0 = 1"
      using B(2) \<open>j < Suc k\<close>
      by (auto simp: mat_set_nth [OF B(1) k assms(2) \<open>j < n\<close>] less_Suc_eq)
  qed
qed

lemma row_loop:
  assumes "shape A n m" "j < n" "A ! j ! 0 = 1" "k < m"
  shows "shape (fold (\<lambda>i A. mat_set A j (i + 1) (mat_get A j i * z)) [0..<k] A) n m \<and>
         (\<forall>i\<le>k. fold (\<lambda>i A. mat_set A j (i + 1) (mat_get A j i * z)) [0..<k] A ! j ! i = z ^ i) \<and>
         (\<forall>j'<n. j' \<noteq> j \<longrightarrow>
            fold (\<lambda>i A. mat_set A j (i + 1) (mat_get A j i * z)) [0..<k] A ! j' = A ! j')"
  using assms(4)
proof (induction k)
  case 0
  then show ?case using assms(1,3) by simp
next
  case (Suc k)
  define B where "B = fold (\<lambda>i A. mat_set A j (i + 1) (mat_get A j i * z)) [0..<k] A"
  have B: "shape B n m" "\<forall>i\<le>k. B ! j ! i = z ^ i" "\<forall>j'<n. j' \<noteq> j \<longrightarrow> B ! j' = A ! j'"
    using Suc unfolding B_def by simp_all
  have k: "Suc k < m" using Suc.prems by simp
  have s: "fold (\<lambda>i A. mat_set A j (i + 1) (mat_get A j i * z)) [0..<Suc k] A
      = mat_set B j (Suc k) (z ^ k * z)"
    using B(2) unfolding B_def by (simp add: mat_get_def)
  show ?case
    unfolding s
  proof (intro conjI allI impI)
    show "shape (mat_set B j (Suc k) (z ^ k * z)) n m" by (rule shape_mat_set [OF B(1)])
  next
    fix i assume "i \<le> Suc k"
    show "mat_set B j (Suc k) (z ^ k * z) ! j ! i = z ^ i"
      using B(2) \<open>i \<le> Suc k\<close>
      by (auto simp: mat_set_nth [OF B(1) assms(2) k assms(2)] le_Suc_eq)
  next
    fix j' assume "j' < n" "j' \<noteq> j"
    then show "mat_set B j (Suc k) (z ^ k * z) ! j' = A ! j'"
      using B(1,3) by (simp add: mat_set_def shape_def)
  qed
qed

lemma rows_loop:
  assumes "shape A n m" "\<forall>j<n. A ! j ! 0 = 1" "K < m" "k \<le> n"
  shows "shape (fold (\<lambda>j A. fold (\<lambda>i A. mat_set A j (i + 1) (mat_get A j i * xs ! j)) [0..<K] A)
                  [0..<k] A) n m \<and>
         (\<forall>j<k. \<forall>i\<le>K.
            fold (\<lambda>j A. fold (\<lambda>i A. mat_set A j (i + 1) (mat_get A j i * xs ! j)) [0..<K] A)
              [0..<k] A ! j ! i = xs ! j ^ i) \<and>
         (\<forall>j<n. k \<le> j \<longrightarrow>
            fold (\<lambda>j A. fold (\<lambda>i A. mat_set A j (i + 1) (mat_get A j i * xs ! j)) [0..<K] A)
              [0..<k] A ! j = A ! j)"
  using assms(4)
proof (induction k)
  case 0
  then show ?case using assms(1) by simp
next
  case (Suc k)
  let ?B = "fold (\<lambda>j A. fold (\<lambda>i A. mat_set A j (i + 1) (mat_get A j i * xs ! j)) [0..<K] A)
              [0..<k] A"
  let ?C = "fold (\<lambda>i A. mat_set A k (i + 1) (mat_get A k i * xs ! k)) [0..<K] ?B"
  have B: "shape ?B n m" "\<forall>j<k. \<forall>i\<le>K. ?B ! j ! i = xs ! j ^ i" "\<forall>j<n. k \<le> j \<longrightarrow> ?B ! j = A ! j"
    using Suc by simp_all
  have k: "k < n" using Suc.prems by simp
  have one: "?B ! k ! 0 = 1" using B(3) assms(2) k by simp
  have C: "shape ?C n m" "\<forall>i\<le>K. ?C ! k ! i = xs ! k ^ i" "\<forall>j'<n. j' \<noteq> k \<longrightarrow> ?C ! j' = ?B ! j'"
    using row_loop [OF B(1) k one assms(3), of "xs ! k"] by simp_all
  have s: "fold (\<lambda>j A. fold (\<lambda>i A. mat_set A j (i + 1) (mat_get A j i * xs ! j)) [0..<K] A)
              [0..<Suc k] A = ?C"
    by simp
  show ?case
    unfolding s
  proof (intro conjI allI impI)
    show "shape ?C n m" by (rule C(1))
  next
    fix j i assume "j < Suc k" "i \<le> K"
    show "?C ! j ! i = xs ! j ^ i"
    proof (cases "j = k")
      case True
      then show ?thesis using C(2) \<open>i \<le> K\<close> by simp
    next
      case False
      then have "j < k" using \<open>j < Suc k\<close> by simp
      then show ?thesis using C(3) B(2) k \<open>i \<le> K\<close> False by simp
    qed
  next
    fix j assume "j < n" "Suc k \<le> j"
    then show "?C ! j = A ! j" using C(3) B(3) by simp
  qed
qed

lemma design_matrix_nth:
  assumes "0 \<le> order"
  shows "length (design_matrix xs order) = length xs"
    and "j < length xs \<Longrightarrow> i \<le> nat order \<Longrightarrow> design_matrix xs order ! j ! i = xs ! j ^ i"
proof -
  let ?n = "length xs" and ?m = "nat (order + 1)"
  let ?A0 = "MatrixXd ?n ?m"
  let ?A1 = "fold (\<lambda>i A. mat_set A i 0 1) [0..<?n] ?A0"
  have m: "0 < ?m" "nat order < ?m" using assms by simp_all
  have 0: "shape ?A0 ?n ?m" by (simp add: shape_def MatrixXd_def)
  have 1: "shape ?A1 ?n ?m" "\<forall>j<?n. ?A1 ! j ! 0 = 1"
    using ones_loop [OF 0 m(1) order_refl] by simp_all
  have 2: "shape (design_matrix xs order) ?n ?m"
    "\<forall>j<?n. \<forall>i\<le>nat order. design_matrix xs order ! j ! i = xs ! j ^ i"
    using rows_loop [OF 1 m(2) order_refl, of xs]
    unfolding design_matrix_def Let_def by simp_all
  show "length (design_matrix xs order) = length xs" using 2(1) by (simp add: shape_def)
  show "j < length xs \<Longrightarrow> i \<le> nat order \<Longrightarrow> design_matrix xs order ! j ! i = xs ! j ^ i"
    using 2(2) by simp
qed


lemma residual_nonneg: "0 \<le> residual A b c"
  unfolding residual_def by (rule sum_nonneg) simp

lemma design_row:
  assumes "length c = 4" "j < length xs"
  shows "(\<Sum>i<length c. design_matrix xs 3 ! j ! i * c ! i) = polyeval c (xs ! j)"
proof -
  have "design_matrix xs 3 ! j ! i = xs ! j ^ i" if "i < 4" for i
    using that assms(2) by (intro design_matrix_nth(2)) simp_all
  then show ?thesis
    unfolding polyeval_sum assms(1) by (intro sum.cong refl) (simp add: mult.commute)
qed

lemma residual_design:
  assumes "length c = 4"
  shows "residual (design_matrix xs 3) b c = (\<Sum>j<length xs. (polyeval c (xs ! j) - b ! j) ^ 2)"
  unfolding residual_def design_matrix_nth(1) [of 3 xs, simplified]
  by (intro sum.cong refl) (simp add: design_row [OF assms])

lemma residual_exact:
  assumes "length p = 4"
  shows "residual (design_matrix xs 3) (map (polyeval p) xs) p = 0"
  unfolding residual_design [OF assms] by simp

lemma cubic_unique:
  fixes c p :: "real list"
  assumes "length c = 4" "length p = 4" "distinct xs" "4 \<le> length xs"
    and "\<forall>z\<in>set xs. polyeval c z = polyeval p z"
  shows "c = p"
proof (rule ccontr)
  assume "c \<noteq> p"
  then obtain k where k: "k < 4" "c ! k \<noteq> p ! k"
    using assms(1,2) by (auto simp: list_eq_iff_nth_eq)
  define d where "d = (\<lambda>i. c ! i - p ! i)"
  have dk: "d k \<noteq> 0" "k \<le> 3" using k by (simp_all add: d_def)
  have roots: "set xs \<subseteq> {z. (\<Sum>i\<le>3. d i * z ^ i) = 0}"
  proof
    fix z assume "z \<in> set xs"
    then have "polyeval c z = polyeval p z" using assms(5) by blast
    then have "(\<Sum>i<4. c ! i * z ^ i) - (\<Sum>i<4. p ! i * z ^ i) = 0"
      by (simp add: polyeval_sum assms(1,2))
    then have "(\<Sum>i<4. d i * z ^ i) = 0"
      by (simp add: d_def sum_subtractf left_diff_distrib)
    moreover have "{..<4::nat} = {..3}" by auto
    ultimately show "z \<in> {z. (\<Sum>i\<le>3. d i * z ^ i) = 0}" by simp
  qed
  have fin: "finite {z. (\<Sum>i\<le>3. d i * z ^ i) = 0}"
    and crd: "card {z. (\<Sum>i\<le>3. d i * z ^ i) = 0} \<le> 3"
    using polyfun_rootbound [of d k 3, OF dk] by blast+
  have "card (set xs) \<le> card {z. (\<Sum>i\<le>3. d i * z ^ i) = 0}"
    by (rule card_mono [OF fin roots])
  then have "card (set xs) \<le> 3"
    using crd by (rule order_trans)
  then show False
    using assms(3,4) by (simp add: distinct_card)
qed

text \<open>
  C9: for every cubic \<open>p\<close> (four coefficients) and at least four sample points with distinct
  \<open>x\<close> values whose \<open>y\<close> values are \<open>polyeval p\<close>, \<open>polyfit\<close> with order 3 returns the
  coefficients of \<open>p\<close>, in exact arithmetic, the QR solver returning a least-squares solution
  of the system that \<open>polyfit\<close> hands to it.
\<close>

theorem polyfit_recovers_polynomial:
  assumes "length p = 4" "4 \<le> length xs" "distinct xs"
    and "least_squares 4 (design_matrix xs 3) (map (polyeval p) xs)
           (qr (design_matrix xs 3) (map (polyeval p) xs))"
  shows "polyfit qr xs (map (polyeval p) xs) 3 = Inr p"
proof -
  define c where "c = qr (design_matrix xs 3) (map (polyeval p) xs)"
  have len: "length c = 4"
    and least: "residual (design_matrix xs 3) (map (polyeval p) xs) c
                 \<le> residual (design_matrix xs 3) (map (polyeval p) xs) p"
    using assms(1,4) unfolding c_def least_squares_def by simp_all
  have "residual (design_matrix xs 3) (map (polyeval p) xs) c = 0"
    using least residual_exact [OF assms(1), of xs]
      residual_nonneg [of "design_matrix xs 3" "map (polyeval p) xs" c]
    by linarith
  then have "(\<Sum>j<length xs. (polyeval c (xs ! j) - map (polyeval p) xs ! j) ^ 2) = 0"
    by (simp only: residual_design [OF len])
  then have "\<forall>j\<in>{..<length xs}. (polyeval c (xs ! j) - map (polyeval p) xs ! j) ^ 2 = 0"
    by (subst (asm) sum_nonneg_eq_0_iff) simp_all
  then have "\<forall>j<length xs. polyeval c (xs ! j) = polyeval p (xs ! j)"
    by simp
  then have "\<forall>z\<in>set xs. polyeval c z = polyeval p z"
    by (auto simp: in_set_conv_nth)
  then have "c = p"
    by (rule cubic_unique [OF len assms(1,3,2)])
  then show ?thesis
    using assms(2) by (simp add: polyfit_def c_def)
qed

theorem polyfit_recovers_polynomial_witness:
  "polyfit (const_qr [1, 2, 3, 4]) [0, 1, 2, 3] (map (polyeval [1, 2, 3, 4]) [0, 1, 2, 3]) 3
     = Inr [1, 2, 3, 4]"
proof -
  have l: "length [1, 2, 3, 4 :: real] = 4" by simp
  have n: "4 \<le> length [0, 1, 2, 3 :: real]" by simp
  have d: "distinct [0, 1, 2, 3 :: real]" by simp
  have q: "least_squares 4 (design_matrix [0, 1, 2, 3] 3) (map (polyeval [1, 2, 3, 4]) [0, 1, 2, 3])
      (const_qr [1, 2, 3, 4] (design_matrix [0, 1, 2, 3] 3) (map (polyeval [1, 2, 3, 4]) [0, 1, 2, 3]))"
    unfolding least_squares_def const_qr_def
    using residual_exact [OF l, of "[0, 1, 2, 3]"]
      residual_nonneg [of "design_matrix [0, 1, 2, 3] 3" "map (polyeval [1, 2, 3, 4]) [0, 1, 2, 3]"]
    by simp
  show ?thesis
    by (rule polyfit_recovers_polynomial [of "[1, 2, 3, 4]" "[0, 1, 2, 3]" "const_qr [1, 2, 3, 4]",
          OF l n d q])
qed

section \<open>The dynamics constraints\<close>

lemma constraint_step_kinematic:
  assumes "t < N - 2" "length fg = Suc n_constraints"
  shows "constraint_step coeffs vars t fg ! (x_start + t + 2) =
           vars ! (x_start + t + 1) -
           kinematic_update (vars ! (x_start + t)) (vars ! (y_start + t)) (vars ! (psi_start + t))
             (vars ! (v_start + t)) (vars ! (delta_start + t)) (vars ! (a_start + t)) dt ! 0"
    and "constraint_step coeffs vars t fg ! (y_start + t + 2) =
           vars ! (y_start + t + 1) -
           kinematic_update (vars ! (x_start + t)) (vars ! (y_start + t)) (vars ! (psi_start + t))
             (vars ! (v_start + t)) (vars ! (delta_start + t)) (vars ! (a_start + t)) dt ! 1"
    and "constraint_step coeffs vars t fg ! (psi_start + t + 2) =
           vars ! (psi_start + t + 1) -
           kinematic_update (vars ! (x_start + t)) (vars ! (y_start + t)) (vars ! (psi_start + t))
             (vars ! (v_start + t)) (vars ! (delta_start + t)) (vars ! (a_start + t)) dt ! 2"
    and "constraint_step coeffs vars t fg ! (v_start + t + 2) =
           vars ! (v_start + t + 1) -
           kinematic_update (vars ! (x_start + t)) (vars ! (y_start + t)) (vars ! (psi_start + t))
             (vars ! (v_start + t)) (vars ! (delta_start + t)) (vars ! (a_start + t)) dt ! 3"
  using assms
  by (simp_all add: constraint_step_def kinematic_update_def Let_def start_defs N_def
      n_constraints_def numeral_3_eq_3)

lemma length_constraints_bounds:
  "length (constraints_lowerbound state) = 6 * N" "length (constraints_upperbound state) = 6 * N"
  by (simp_all add: constraints_lowerbound_def constraints_upperbound_def Dvector_def
      n_constraints_def Let_def)

lemma constraints_bounds_last:
  "constraints_lowerbound state ! (x_start + (N - 1)) = 0"
  "constraints_upperbound state ! (x_start + (N - 1)) = 0"
  by (simp_all add: constraints_lowerbound_def constraints_upperbound_def Dvector_def
      n_constraints_def Let_def fill_nth start_defs N_def)

text \<open>
  C1 (what the code does where the claim fails): the constraint loop runs for \<open>t < N - 2\<close>,
  so the six entries of \<open>fg\<close> where the residual of step \<open>t = N - 2\<close> belongs are left as the
  caller passed them, and nothing that \<open>FG_eval\<close> computes depends on the position and
  heading of the last state: the pair (state \<open>N - 2\<close>, state \<open>N - 1\<close>) is not linked.
  \<open>MPC::Solve\<close> all the same declares \<open>6 N\<close> constraints, with bounds 0 on that step's entries.
\<close>

theorem last_step_unconstrained:
  "FG_eval coeffs fg vars ! (x_start + (N - 2) + 2) = fg ! (x_start + (N - 2) + 2) \<and>
   FG_eval coeffs fg vars ! (y_start + (N - 2) + 2) = fg ! (y_start + (N - 2) + 2) \<and>
   FG_eval coeffs fg vars ! (psi_start + (N - 2) + 2) = fg ! (psi_start + (N - 2) + 2) \<and>
   FG_eval coeffs fg vars ! (v_start + (N - 2) + 2) = fg ! (v_start + (N - 2) + 2) \<and>
   FG_eval coeffs fg vars ! (cte_start + (N - 2) + 2) = fg ! (cte_start + (N - 2) + 2) \<and>
   FG_eval coeffs fg vars ! (epsi_start + (N - 2) + 2) = fg ! (epsi_start + (N - 2) + 2) \<and>
   FG_eval coeffs fg (vars[x_start + (N - 1) := z]) = FG_eval coeffs fg vars \<and>
   FG_eval coeffs fg (vars[y_start + (N - 1) := z]) = FG_eval coeffs fg vars \<and>
   FG_eval coeffs fg (vars[psi_start + (N - 1) := z]) = FG_eval coeffs fg vars \<and>
   length (constraints_lowerbound state) = 6 * N \<and>
   length (constraints_upperbound state) = 6 * N \<and>
   constraints_lowerbound state ! (x_start + (N - 1)) = 0 \<and>
   constraints_upperbound state ! (x_start + (N - 1)) = 0"
proof -
  have k: "fold step ts g ! i = g ! i" if "\<And>t g. step t g ! i = g ! i"
    for step :: "nat \<Rightarrow> real list \<Rightarrow> real list" and ts g i
    by (induction ts arbitrary: g) (simp_all add: that)
  have cs: "fold (cost_state vars) ts g ! i = g ! i" if "i \<noteq> 0" for ts g i
    by (rule k) (simp add: cost_state_def Let_def that)
  have ca: "fold (cost_actuator vars) ts g ! i = g ! i" if "i \<noteq> 0" for ts g i
    by (rule k) (simp add: cost_actuator_def Let_def that)
  have cg: "fold (cost_gap vars) ts g ! i = g ! i" if "i \<noteq> 0" for ts g i
    by (rule k) (simp add: cost_gap_def Let_def that)
  have slot: "FG_eval coeffs fg vars ! i = fg ! i"
    if "i \<in> {x_start + (N - 2) + 2, y_start + (N - 2) + 2, psi_start + (N - 2) + 2,
               v_start + (N - 2) + 2, cte_start + (N - 2) + 2, epsi_start + (N - 2) + 2}" for i
  proof -
    have i0: "i \<noteq> 0" using that by auto
    have pins: "i \<noteq> x_start + 1" "i \<noteq> y_start + 1" "i \<noteq> psi_start + 1"
      "i \<noteq> v_start + 1" "i \<noteq> cte_start + 1" "i \<noteq> epsi_start + 1"
      using that by (auto simp: start_defs N_def)
    have "FG_eval coeffs fg vars ! i =
      (fold (cost_gap vars) [0..<N - 2]
           (fold (cost_actuator vars) [0..<N - 1]
             (fold (cost_state vars) [0..<N] (fg[0 := 0]))))
        [x_start + 1 := vars ! x_start, y_start + 1 := vars ! y_start,
         psi_start + 1 := vars ! psi_start, v_start + 1 := vars ! v_start,
         cte_start + 1 := vars ! cte_start, epsi_start + 1 := vars ! epsi_start] ! i"
      unfolding FG_eval_def Let_def
      using that by (intro fold_constraint_other) (auto simp: start_defs N_def)
    also have "\<dots> = fg ! i"
      using pins i0 by (simp add: cs ca cg)
    finally show ?thesis .
  qed
  show ?thesis
    by (intro conjI slot FG_eval_last_position_unread length_constraints_bounds
        constraints_bounds_last) simp_all
qed

section \<open>The objective in double arithmetic\<close>


lemma round_double_0 [simp]: "round_double 0 = 0"
  by (simp add: round_double_def)






















end
